theory Spec2Isabelle
  imports Main
begin

section \<open>JavaScript strings\<close>

text \<open>
  A JavaScript string is a sequence of UTF-16 code units and \<open>length\<close> counts code units.
  The embedding takes the code units below 256 (type \<open>char\<close>, one \<open>char\<close> per code unit),
  so \<open>s.length\<close> is the length of the list. On that range \<open>toLowerCase\<close> shifts
  \<open>A\<close>..\<open>Z\<close> (65..90) and the Latin-1 capitals 192..222 other than the multiplication sign 215
  by 32 and leaves every other code unit alone, and \<open>trim\<close> strips the white space and line
  terminators 9, 10, 11, 12, 13, 32 and 160 from both ends.
\<close>

definition lower_char :: "char \<Rightarrow> char" where
  "lower_char c =
     (let n = (of_char c :: nat)
      in if (65 \<le> n \<and> n \<le> 90) \<or> (192 \<le> n \<and> n \<le> 222 \<and> n \<noteq> 215)
         then char_of (n + 32) else c)"

definition toLowerCase :: "string \<Rightarrow> string" where
  "toLowerCase s = map lower_char s"

definition is_white_space :: "char \<Rightarrow> bool" where
  "is_white_space c = ((of_char c :: nat) \<in> {9, 10, 11, 12, 13, 32, 160})"

definition trim :: "string \<Rightarrow> string" where
  "trim s = rev (dropWhile is_white_space (rev (dropWhile is_white_space s)))"

text \<open>\<open>s.startsWith(t)\<close> and \<open>s.includes(t)\<close>: \<open>t\<close> occurs in \<open>s\<close> as a contiguous run.\<close>

fun startsWith :: "string \<Rightarrow> string \<Rightarrow> bool" where
  "startsWith s [] = True"
| "startsWith [] (c # t) = False"
| "startsWith (d # s) (c # t) = (d = c \<and> startsWith s t)"

fun includes_str :: "string \<Rightarrow> string \<Rightarrow> bool" where
  "includes_str [] t = startsWith [] t"
| "includes_str (d # s) t = (startsWith (d # s) t \<or> includes_str s t)"

text \<open>The decimal rendering of a non-negative integer, as a template literal prints it.\<close>

definition digit :: "nat \<Rightarrow> char" where
  "digit d = ''0123456789'' ! (d mod 10)"

fun toString :: "nat \<Rightarrow> string" where
  "toString n = (if n < 10 then [digit n] else toString (n div 10) @ [digit (n mod 10)])"

declare toString.simps [simp del]

text \<open>\<open>xs.join(sep)\<close> on an array of strings.\<close>

fun join :: "string \<Rightarrow> string list \<Rightarrow> string" where
  "join sep [] = []"
| "join sep [x] = x"
| "join sep (x # y # ys) = x @ sep @ join sep (y # ys)"

definition nl :: string where
  "nl = [CHR 0x0A]"

section \<open>The analysis endpoint (route.ts)\<close>

subsection \<open>generateFallbackResponse\<close>

definition counts :: "nat list" where
  "counts = [3, 5, 2, 4, 1]"

definition colors :: "string list" where
  "colors =
     [''vibrant blue and red'',
      ''warm earth tones'',
      ''bright yellow and green'',
      ''soft pastels'',
      ''monochromatic gray'']"

definition descriptions :: "string list" where
  "descriptions =
     [''This appears to be a well-composed image with clear subject matter.'',
      ''The image shows good lighting and interesting visual elements.'',
      ''This image contains multiple objects arranged in an appealing way.'',
      ''The composition demonstrates good use of space and color balance.'',
      ''This image has strong visual appeal with clear focal points.'']"

text \<open>The body of the \<open>for\<close> loop: the value of \<open>response\<close> that iteration \<open>i\<close> pushes.\<close>

definition fallback_iteration :: "string \<Rightarrow> nat \<Rightarrow> string" where
  "fallback_iteration query i =
     (let response = ''Image '' @ toString i @ '': ''
      in if includes_str (toLowerCase query) ''count'' \<or> includes_str (toLowerCase query) ''how many''
         then response @ ''I can see '' @ toString (counts ! (i mod length counts))
                @ '' items in this image.''
         else if includes_str (toLowerCase query) ''color''
         then response @ ''The dominant colors are '' @ colors ! (i mod length colors) @ ''.''
         else if includes_str (toLowerCase query) ''text'' \<or> includes_str (toLowerCase query) ''read''
         then response @ ''I can detect some text elements, but would need a valid API connection for detailed text recognition.''
         else response @ descriptions ! (i mod length descriptions))"

text \<open>
  \<open>for (let i = 1; i <= imageCount; i++) { ...; responses.push(response) }\<close>, from the
  loop counter \<open>i\<close> and the array \<open>responses\<close> built so far.
\<close>

function fallback_loop :: "string \<Rightarrow> nat \<Rightarrow> nat \<Rightarrow> string list \<Rightarrow> string list" where
  "fallback_loop query imageCount i responses =
     (if i \<le> imageCount
      then fallback_loop query imageCount (i + 1) (responses @ [fallback_iteration query i])
      else responses)"
  by pat_completeness auto
termination
  by (relation "measure (\<lambda>(query, imageCount, i, responses). Suc imageCount - i)") auto

declare fallback_loop.simps [simp del]

definition demo_note :: string where
  "demo_note = ''*Note: This is a demo response. Connect a valid OpenAI API key for real AI analysis.*''"

definition generateFallbackResponse :: "string \<Rightarrow> nat \<Rightarrow> string" where
  "generateFallbackResponse query imageCount =
     join (nl @ nl) (fallback_loop query imageCount 1 []) @ nl @ nl @ demo_note"

text \<open>
  The generator as the specification words it: line \<open>i\<close> is \<open>Image i: \<close> and a body chosen
  by the keywords of the lowercased query, the cycling lists read at index \<open>i mod 5\<close>.
\<close>

definition spec_fallback_line :: "string \<Rightarrow> nat \<Rightarrow> string" where
  "spec_fallback_line query i =
     ''Image '' @ toString i @ '': '' @
     (let q = toLowerCase query
      in if includes_str q ''count'' \<or> includes_str q ''how many''
         then ''I can see '' @ toString ([3, 5, 2, 4, 1] ! (i mod 5)) @ '' items in this image.''
         else if includes_str q ''color''
         then ''The dominant colors are '' @ colors ! (i mod 5) @ ''.''
         else if includes_str q ''text'' \<or> includes_str q ''read''
         then ''I can detect some text elements, but would need a valid API connection for detailed text recognition.''
         else descriptions ! (i mod 5))"

subsection \<open>POST\<close>

text \<open>
  What \<open>await request.json()\<close> and the destructuring \<open>const { query, images } = \<dots>\<close>
  make of a request.
  \<^item> \<open>Malformed m\<close>: \<open>request.json()\<close> throws, \<open>Some m\<close> an \<open>Error\<close> with message \<open>m\<close>,
    \<open>None\<close> any other thrown value.
  \<^item> \<open>NullBody m\<close>: the body parses to the JSON value \<open>null\<close>. Destructuring \<open>null\<close>
    throws a \<open>TypeError\<close>, whose message \<open>m\<close> is the engine's; the outer \<open>catch\<close> takes it.
  \<^item> \<open>Body query images\<close>: the body parses to any other JSON value, and the destructuring
    reads its properties, with the types the handler annotates: \<open>query\<close> a string, \<open>images\<close>
    an array of \<open>{ url, name }\<close>. A property that is missing or \<open>null\<close> is \<open>None\<close>; a body
    that is a number, a string, a boolean or an array has neither property and is
    \<open>Body None None\<close>.
\<close>

record image_ref =
  ref_url :: string
  ref_name :: string

datatype request_json =
    Malformed "string option"
  | NullBody string
  | Body "string option" "image_ref list option"

datatype content_part = TextPart string | ImagePart string

record provider_call =
  call_model :: string
  call_content :: "content_part list"
  call_maxTokens :: nat

datatype response_body = ErrorBody string | ResponseBody string

record http_response =
  status :: nat
  body :: response_body

definition prompt_text :: "string \<Rightarrow> nat \<Rightarrow> string" where
  "prompt_text query n =
     ''Please analyze these '' @ toString n @ '' images and answer this question: ''
       @ [CHR 0x22] @ query @ [CHR 0x22] @ ''. '' @ nl
     @ ''                '' @ nl
     @ ''                For each image, provide a detailed response. Format your response as:'' @ nl
     @ ''                '' @ nl
     @ ''                Image 1: [your analysis]'' @ nl
     @ ''                '' @ nl
     @ ''                Image 2: [your analysis]'' @ nl
     @ ''                '' @ nl
     @ ''                etc.'' @ nl
     @ ''                '' @ nl
     @ ''                Be specific and detailed in your analysis.''"

text \<open>The argument of the single \<open>generateText\<close> call: one user message.\<close>

definition analysis_call :: "string \<Rightarrow> image_ref list \<Rightarrow> provider_call" where
  "analysis_call query images =
     (let imageMessages = map (\<lambda>image. ImagePart (ref_url image)) images
      in \<lparr>call_model = ''gpt-4o'',
          call_content = TextPart (prompt_text query (length images)) # imageMessages,
          call_maxTokens = 1000\<rparr>)"

text \<open>
  The handler, given the provider call \<open>generateText\<close> (\<open>Inl\<close> a thrown exception, \<open>Inr\<close>
  the model's text). It returns the HTTP response and the provider calls it made, in order.
\<close>

definition POST :: "(provider_call \<Rightarrow> 'e + string) \<Rightarrow> request_json
    \<Rightarrow> http_response \<times> provider_call list" where
  "POST generateText request =
     (case request of
        Malformed m \<Rightarrow>
          (\<lparr>status = 500,
            body = ErrorBody (''Error analyzing images: ''
                     @ (case m of Some message \<Rightarrow> message | None \<Rightarrow> ''Unknown error''))\<rparr>, [])
      | NullBody message \<Rightarrow>
          (\<lparr>status = 500, body = ErrorBody (''Error analyzing images: '' @ message)\<rparr>, [])
      | Body query images \<Rightarrow>
          (case (query, images) of
             (Some q, Some imgs) \<Rightarrow>
               if q = [] \<or> length imgs = 0
               then (\<lparr>status = 400, body = ErrorBody ''Query and images are required''\<rparr>, [])
               else (case generateText (analysis_call q imgs) of
                       Inr text \<Rightarrow>
                         (\<lparr>status = 200, body = ResponseBody text\<rparr>, [analysis_call q imgs])
                     | Inl apiError \<Rightarrow>
                         (\<lparr>status = 200,
                           body = ResponseBody (generateFallbackResponse q (length imgs))\<rparr>,
                          [analysis_call q imgs]))
           | _ \<Rightarrow> (\<lparr>status = 400, body = ErrorBody ''Query and images are required''\<rparr>, [])))"

section \<open>The client (page.tsx and image-upload.tsx)\<close>

subsection \<open>Data\<close>

text \<open>
  A browser \<open>File\<close> as the code reads it: its name, its MIME type and its size in bytes.
\<close>

record File =
  file_name :: string
  file_type :: string
  file_size :: nat

record UploadedImage =
  img_id :: string
  img_file :: File
  img_url :: string
  img_name :: string

datatype message_type = User | Bot | Error

record ChatMessage =
  msg_id :: string
  msg_type :: message_type
  msg_content :: string
  msg_images :: "UploadedImage list option"
  msg_timestamp :: nat

text \<open>
  The messages \<open>validateQuery\<close> and \<open>validateImages\<close> return, as values;
  \<open>error_message\<close> is the text of each. \<open>OversizedImages\<close> carries the names it lists.
\<close>

datatype validation_error =
    EmptyQuery
  | TooShort
  | TooLong
  | NoImages
  | TooManyImages
  | OversizedImages "string list"

definition error_message :: "validation_error \<Rightarrow> string" where
  "error_message e =
     (case e of
        EmptyQuery \<Rightarrow> ''Please enter a question about your images''
      | TooShort \<Rightarrow> ''Query must be at least 3 characters long''
      | TooLong \<Rightarrow> ''Query must be less than 500 characters''
      | NoImages \<Rightarrow> ''Please upload at least one image before asking a question''
      | TooManyImages \<Rightarrow> ''Maximum 4 images allowed''
      | OversizedImages names \<Rightarrow>
          ''Image(s) too large: '' @ join '', '' names @ ''. Maximum size is 10MB per image.'')"

text \<open>
  The reasons \<open>ImageUpload\<close> puts in \<open>uploadError\<close>, with the data each message is printed
  from: the file's name, for \<open>TooLarge\<close> also its size (the message prints it in megabytes
  with \<open>toFixed(1)\<close>), for \<open>CapacityExceeded\<close> the value of \<open>remainingSlots\<close>.
\<close>

datatype upload_error =
    NotAnImage string
  | TooLarge string nat
  | UnsupportedFormat string
  | FailedToProcess string
  | CapacityExceeded int

datatype toast =
    AnalysisComplete nat
  | AnalysisFailed
  | UploadErrorToast nat
  | UploadSuccessful nat
  | ImageRemoved
  | ImagesCleared

text \<open>The body the page sends to the endpoint, and what \<open>fetch\<close> gives back.
  \<open>Rejected m\<close>: \<open>fetch\<close> or \<open>response.json()\<close> throws (\<open>Some m\<close> an \<open>Error\<close> with message
  \<open>m\<close>, \<open>None\<close> any other value). \<open>Responded ok error response\<close>: a response with
  \<open>response.ok = ok\<close> whose JSON body has the properties \<open>error\<close> (if any) and \<open>response\<close>.\<close>

record analyze_request =
  req_query :: string
  req_images :: "image_ref list"

datatype fetch_outcome =
    Rejected "string option"
  | Responded bool "string option" string

text \<open>
  What the handlers take from outside. Identifiers come from \<open>Math.random\<close>; the state
  counts the draws made, \<open>random_id w k\<close> is the identifier drawn when \<open>k\<close> draws have
  been made, and \<open>clock w k\<close> and \<open>fetch w k\<close> are the time read and the answer to a request
  sent at that moment. A \<open>File\<close> stands for the file with its contents, so reading it is a
  function of the file: \<open>readAsDataURL w file\<close> is its data URL, \<open>None\<close> when the reader
  reports an error.
\<close>

record world =
  random_id :: "nat \<Rightarrow> string"
  clock :: "nat \<Rightarrow> nat"
  readAsDataURL :: "File \<Rightarrow> string option"
  fetch :: "nat \<Rightarrow> analyze_request \<Rightarrow> fetch_outcome"

text \<open>
  The state of the page and of its \<open>ImageUpload\<close> child, one handler run at a time:
  the child's \<open>images\<close> and \<open>uploadError\<close>, the page's \<open>images\<close> (set by the child through
  \<open>onImagesChange\<close>), \<open>query\<close>, \<open>messages\<close>, \<open>isProcessing\<close> and \<open>error\<close>, and the
  effects so far: the toasts shown, the requests sent and the number of draws.
\<close>

record app_state =
  upload_images :: "UploadedImage list"
  uploadError :: "upload_error option"
  page_images :: "UploadedImage list"
  page_query :: string
  messages :: "ChatMessage list"
  isProcessing :: bool
  page_error :: "validation_error option"
  toasts :: "toast list"
  requests :: "analyze_request list"
  draws :: nat

definition initial_state :: app_state where
  "initial_state =
     \<lparr>upload_images = [], uploadError = None, page_images = [], page_query = [],
      messages = [], isProcessing = False, page_error = None, toasts = [], requests = [],
      draws = 0\<rparr>"

subsection \<open>The query orchestrator\<close>

definition validateQuery :: "string \<Rightarrow> validation_error option" where
  "validateQuery queryText =
     (if trim queryText = [] then Some EmptyQuery
      else if length queryText < 3 then Some TooShort
      else if length queryText > 500 then Some TooLong
      else None)"

definition validateImages :: "UploadedImage list \<Rightarrow> validation_error option" where
  "validateImages imageList =
     (if length imageList = 0 then Some NoImages
      else if length imageList > 4 then Some TooManyImages
      else
        (let oversizedImages =
               filter (\<lambda>img. file_size (img_file img) > 10 * 1024 * 1024) imageList
         in if length oversizedImages > 0
            then Some (OversizedImages (map img_name oversizedImages))
            else None))"

definition request_of :: "app_state \<Rightarrow> analyze_request" where
  "request_of s =
     \<lparr>req_query = page_query s,
      req_images = map (\<lambda>img. \<lparr>ref_url = img_url img, ref_name = img_name img\<rparr>) (page_images s)\<rparr>"

definition userMessage :: "world \<Rightarrow> app_state \<Rightarrow> ChatMessage" where
  "userMessage w s =
     \<lparr>msg_id = random_id w (draws s), msg_type = User, msg_content = page_query s,
      msg_images = Some (page_images s), msg_timestamp = clock w (Suc (draws s))\<rparr>"

text \<open>The \<open>catch\<close> branch: an error entry, the failure toast.\<close>

definition send_failed :: "world \<Rightarrow> string \<Rightarrow> app_state \<Rightarrow> app_state" where
  "send_failed w content s =
     s\<lparr>messages := messages s @
          [\<lparr>msg_id = random_id w (draws s), msg_type = Error, msg_content = content,
            msg_images = None, msg_timestamp = clock w (Suc (draws s))\<rparr>],
       draws := Suc (draws s),
       toasts := toasts s @ [AnalysisFailed]\<rparr>"

definition handleSendQuery :: "world \<Rightarrow> app_state \<Rightarrow> app_state" where
  "handleSendQuery w s0 =
     (let s1 = s0\<lparr>page_error := None\<rparr>
      in case validateQuery (page_query s1) of
           Some queryError \<Rightarrow> s1\<lparr>page_error := Some queryError\<rparr>
         | None \<Rightarrow>
             (case validateImages (page_images s1) of
                Some imageError \<Rightarrow> s1\<lparr>page_error := Some imageError\<rparr>
              | None \<Rightarrow>
                  (let s2 = s1\<lparr>messages := messages s1 @ [userMessage w s1],
                              draws := Suc (draws s1),
                              isProcessing := True\<rparr>;
                       s3 = s2\<lparr>requests := requests s2 @ [request_of s1]\<rparr>;
                       s4 =
                         (case fetch w (draws s3) (request_of s1) of
                            Rejected None \<Rightarrow>
                              send_failed w ''An unexpected error occurred. Please try again.'' s3
                          | Rejected (Some message) \<Rightarrow> send_failed w message s3
                          | Responded False errorData aiResponse \<Rightarrow>
                              send_failed w
                                (case errorData of
                                   None \<Rightarrow> ''Failed to analyze images''
                                 | Some e \<Rightarrow> if e = [] then ''Failed to analyze images'' else e)
                                s3
                          | Responded True errorData aiResponse \<Rightarrow>
                              s3\<lparr>messages := messages s3 @
                                   [\<lparr>msg_id = random_id w (draws s3), msg_type = Bot,
                                     msg_content = aiResponse, msg_images = None,
                                     msg_timestamp = clock w (Suc (draws s3))\<rparr>],
                                 draws := Suc (draws s3),
                                 page_query := [],
                                 toasts := toasts s3 @ [AnalysisComplete (length (page_images s1))]\<rparr>)
                   in s4\<lparr>isProcessing := False\<rparr>)))"

subsection \<open>Image intake\<close>

definition supportedTypes :: "string list" where
  "supportedTypes = [''image/jpeg'', ''image/jpg'', ''image/png'', ''image/gif'', ''image/webp'']"

definition validateFile :: "File \<Rightarrow> upload_error option" where
  "validateFile file =
     (if \<not> startsWith (file_type file) ''image/'' then Some (NotAnImage (file_name file))
      else
        (let maxSize = 10 * 1024 * 1024
         in if file_size file > maxSize then Some (TooLarge (file_name file) (file_size file))
            else if file_type file \<notin> set supportedTypes
            then Some (UnsupportedFormat (file_name file))
            else None))"

text \<open>
  \<open>for (const file of Array.from(files)) { ... }\<close>: the draws made so far, \<open>newImages\<close>
  and \<open>errors\<close> go round the loop. A file that passes validation takes its identifier
  before it is read, so a failed read has spent a draw.
\<close>

fun process_files :: "world \<Rightarrow> File list \<Rightarrow> nat \<Rightarrow> UploadedImage list \<Rightarrow> upload_error list
    \<Rightarrow> nat \<times> UploadedImage list \<times> upload_error list" where
  "process_files w [] k newImages errors = (k, newImages, errors)"
| "process_files w (file # rest) k newImages errors =
     (case validateFile file of
        Some validationError \<Rightarrow> process_files w rest k newImages (errors @ [validationError])
      | None \<Rightarrow>
          (case readAsDataURL w file of
             Some base64Url \<Rightarrow>
               process_files w rest (Suc k)
                 (newImages @
                    [\<lparr>img_id = random_id w k, img_file = file, img_url = base64Url,
                      img_name = file_name file\<rparr>])
                 errors
           | None \<Rightarrow>
               process_files w rest (Suc k) newImages
                 (errors @ [FailedToProcess (file_name file)])))"

definition handleFiles :: "int \<Rightarrow> world \<Rightarrow> File list \<Rightarrow> app_state \<Rightarrow> app_state" where
  "handleFiles maxImages w files s0 =
     (let s1 = s0\<lparr>uploadError := None\<rparr>;
          remainingSlots = maxImages - int (length (upload_images s1))
      in if int (length files) > remainingSlots
         then s1\<lparr>uploadError := Some (CapacityExceeded remainingSlots)\<rparr>
         else
           (case process_files w files (draws s1) [] [] of
              (k, newImages, errors) \<Rightarrow>
                (case errors of
                   e # es \<Rightarrow>
                     s1\<lparr>uploadError := Some e,
                        toasts := toasts s1 @ [UploadErrorToast (length errors)],
                        draws := k\<rparr>
                 | [] \<Rightarrow>
                     if length newImages > 0
                     then
                       (let updatedImages = upload_images s1 @ newImages
                        in s1\<lparr>upload_images := updatedImages,
                              page_images := updatedImages,
                              toasts := toasts s1 @ [UploadSuccessful (length newImages)],
                              draws := k\<rparr>)
                     else s1\<lparr>draws := k\<rparr>)))"

definition removeImage :: "string \<Rightarrow> app_state \<Rightarrow> app_state" where
  "removeImage ident s =
     (let updatedImages = filter (\<lambda>img. img_id img \<noteq> ident) (upload_images s)
      in s\<lparr>upload_images := updatedImages,
           page_images := updatedImages,
           uploadError := None,
           toasts := toasts s @ [ImageRemoved]\<rparr>)"

text \<open>The handler of the \<open>Clear All\<close> button.\<close>

definition clearAll :: "app_state \<Rightarrow> app_state" where
  "clearAll s =
     s\<lparr>upload_images := [],
       page_images := [],
       uploadError := None,
       toasts := toasts s @ [ImagesCleared]\<rparr>"

text \<open>
  The intake operations a user can run, and a run of them from a state. The page mounts
  \<open>ImageUpload\<close> with \<open>maxImages = 4\<close>.
\<close>

datatype intake_op = Submit "File list" | Remove string | ClearAll

definition intake_step :: "world \<Rightarrow> app_state \<Rightarrow> intake_op \<Rightarrow> app_state" where
  "intake_step w s operation =
     (case operation of
        Submit files \<Rightarrow> handleFiles 4 w files s
      | Remove ident \<Rightarrow> removeImage ident s
      | ClearAll \<Rightarrow> clearAll s)"

definition run_intake :: "world \<Rightarrow> intake_op list \<Rightarrow> app_state \<Rightarrow> app_state" where
  "run_intake w ops s = foldl (intake_step w) s ops"

text \<open>
  The failures of a batch, in the order of its files: a file's validation error, or
  for a valid file the failed read.
\<close>

definition batch_failures :: "world \<Rightarrow> File list \<Rightarrow> upload_error list" where
  "batch_failures w files =
     List.map_filter
       (\<lambda>file. case validateFile file of
                  Some validationError \<Rightarrow> Some validationError
                | None \<Rightarrow>
                    (case readAsDataURL w file of
                       Some base64Url \<Rightarrow> None
                     | None \<Rightarrow> Some (FailedToProcess (file_name file))))
       files"

text \<open>What every run of intake operations keeps: the bound on the number of images held,
  the bound on each file's size, and the page's copy equal to the child's list.\<close>

definition intake_inv :: "app_state \<Rightarrow> bool" where
  "intake_inv s \<longleftrightarrow>
     length (upload_images s) \<le> 4
     \<and> list_all (\<lambda>img. file_size (img_file img) \<le> 10 * 1024 * 1024) (upload_images s)
     \<and> page_images s = upload_images s"

subsection \<open>Sample inputs\<close>

definition sample_world :: world where
  "sample_world =
     \<lparr>random_id = (\<lambda>k. ''id'' @ toString k),
      clock = (\<lambda>k. 1000 + k),
      readAsDataURL =
        (\<lambda>file. if file_name file = ''broken.png'' then None
                 else Some (''data:'' @ file_type file @ '';base64,AAAA'')),
      fetch = (\<lambda>k request. Responded True None ''Image 1: a lamp.'')\<rparr>"

definition photo :: File where
  "photo = \<lparr>file_name = ''lamp.png'', file_type = ''image/png'', file_size = 2048\<rparr>"

definition scan :: File where
  "scan = \<lparr>file_name = ''chair.jpg'', file_type = ''image/jpeg'', file_size = 10485760\<rparr>"

definition leaflet :: File where
  "leaflet = \<lparr>file_name = ''leaflet.pdf'', file_type = ''application/pdf'', file_size = 512\<rparr>"

definition torn :: File where
  "torn = \<lparr>file_name = ''broken.png'', file_type = ''image/png'', file_size = 4096\<rparr>"

definition held :: "string \<Rightarrow> File \<Rightarrow> UploadedImage" where
  "held ident file =
     \<lparr>img_id = ident, img_file = file, img_url = ''data:'' @ file_type file @ '';base64,AAAA'',
      img_name = file_name file\<rparr>"

definition stocked :: app_state where
  "stocked =
     initial_state\<lparr>upload_images := [held ''a'' photo, held ''b'' scan, held ''c'' photo],
       page_images := [held ''a'' photo, held ''b'' scan, held ''c'' photo], draws := 3\<rparr>"

definition asking :: "string \<Rightarrow> app_state" where
  "asking q =
     initial_state\<lparr>upload_images := [held ''id0'' photo], page_images := [held ''id0'' photo],
       page_query := q, draws := 1\<rparr>"

section \<open>Properties of the endpoint\<close>

lemma fallback_loop_eq:
  "fallback_loop query n i acc = acc @ map (fallback_iteration query) [i..<Suc n]"
proof (induction query n i acc rule: fallback_loop.induct)
  case (1 query imageCount i responses)
  show ?case
  proof (cases "i \<le> imageCount")
    case True
    then have "[i..<Suc imageCount] = i # [Suc i..<Suc imageCount]"
      by (simp add: upt_conv_Cons)
    with True "1" show ?thesis
      by (subst fallback_loop.simps) simp
  next
    case False
    then show ?thesis
      by (subst fallback_loop.simps) simp
  qed
qed

lemma fallback_iteration_spec: "fallback_iteration query i = spec_fallback_line query i"
  by (simp add: fallback_iteration_def spec_fallback_line_def counts_def colors_def
      descriptions_def Let_def)

lemma generateFallbackResponse_eq:
  "generateFallbackResponse query n =
     join (nl @ nl) (map (spec_fallback_line query) [1..<Suc n]) @ nl @ nl @ demo_note"
  by (simp add: generateFallbackResponse_def fallback_loop_eq fallback_iteration_spec
      del: upt_Suc cong: map_cong)

text \<open>
  C1. For every query and every image count (so for every count from 1 on), the fallback
  generator returns the lines \<open>Image i: \<dots>\<close> for \<open>i = 1, \<dots>, imageCount\<close>, one per image,
  each with the body the keywords of the lowercased query select (count or how many, else
  color, else text or read, else the generic descriptions) and the cycling lists read at
  \<open>i mod 5\<close>; the lines are joined by a blank line and followed by a blank line and the
  demo note. For \<open>How many items?\<close> and 7 images there are 7 lines and line 6 reads entry 1
  of the counts; for \<open>What colors?\<close> and 2 images the text starts with the line of the
  warm earth tones and goes on with entry 2 of the palette.
\<close>

theorem generateFallbackResponse_lines:
  "generateFallbackResponse query n =
     join (nl @ nl) (map (spec_fallback_line query) [1..<Suc n]) @ nl @ nl @ demo_note
   \<and> length (map (spec_fallback_line query) [1..<Suc n]) = n
   \<and> generateFallbackResponse ''How many items?'' 7 =
       join (nl @ nl)
         [''Image 1: I can see 5 items in this image.'',
          ''Image 2: I can see 2 items in this image.'',
          ''Image 3: I can see 4 items in this image.'',
          ''Image 4: I can see 1 items in this image.'',
          ''Image 5: I can see 3 items in this image.'',
          ''Image 6: I can see '' @ toString (counts ! 1) @ '' items in this image.'',
          ''Image 7: I can see 2 items in this image.'']
       @ nl @ nl @ demo_note
   \<and> generateFallbackResponse ''What colors?'' 2 =
       ''Image 1: The dominant colors are warm earth tones.'' @ nl @ nl
       @ ''Image 2: The dominant colors are '' @ colors ! 2 @ ''.'' @ nl @ nl @ demo_note"
proof -
  have a: "generateFallbackResponse ''How many items?'' 7 =
       join (nl @ nl)
         [''Image 1: I can see 5 items in this image.'',
          ''Image 2: I can see 2 items in this image.'',
          ''Image 3: I can see 4 items in this image.'',
          ''Image 4: I can see 1 items in this image.'',
          ''Image 5: I can see 3 items in this image.'',
          ''Image 6: I can see '' @ toString (counts ! 1) @ '' items in this image.'',
          ''Image 7: I can see 2 items in this image.'']
       @ nl @ nl @ demo_note"
    by code_simp
  have b: "generateFallbackResponse ''What colors?'' 2 =
       ''Image 1: The dominant colors are warm earth tones.'' @ nl @ nl
       @ ''Image 2: The dominant colors are '' @ colors ! 2 @ ''.'' @ nl @ nl @ demo_note"
    by code_simp
  show ?thesis
    using a b by (simp add: generateFallbackResponse_eq del: upt_Suc)
qed

theorem generateFallbackResponse_lines_witness:
  "generateFallbackResponse ''Read the label'' 1 =
     ''Image 1: I can detect some text elements, but would need a valid API connection for detailed text recognition.''
       @ nl @ nl @ demo_note"
proof -
  have "join (nl @ nl) (map (spec_fallback_line ''Read the label'') [1..<Suc 1]) =
    ''Image 1: I can detect some text elements, but would need a valid API connection for detailed text recognition.''"
    by code_simp
  then show ?thesis
    using generateFallbackResponse_lines [of "''Read the label''" 1] by simp
qed

text \<open>
  C6, as the code has it. A request whose body parses to a JSON value other than \<open>null\<close>
  and whose query is absent or empty, or whose images are absent or empty, is answered
  with status 400 and an error body, and the provider is not called.
\<close>

theorem POST_bad_request:
  assumes "query = None \<or> query = Some [] \<or> images = None \<or> images = Some []"
  shows "POST generateText (Body query images) =
           (\<lparr>status = 400, body = ErrorBody ''Query and images are required''\<rparr>, [])"
  using assms by (auto simp: POST_def split: option.splits)

theorem POST_bad_request_witness:
  "POST (\<lambda>c. (Inr ''Image 1: a lamp.'' :: unit + string)) (Body (Some ''What colors?'') (Some []))
     = (\<lparr>status = 400, body = ErrorBody ''Query and images are required''\<rparr>, [])
   \<and> POST (\<lambda>c. (Inr ''Image 1: a lamp.'' :: unit + string))
       (Body None (Some [\<lparr>ref_url = ''data:image/png;base64,AAAA'', ref_name = ''lamp.png''\<rparr>]))
     = (\<lparr>status = 400, body = ErrorBody ''Query and images are required''\<rparr>, [])"
  using POST_bad_request [of "Some ''What colors?''" "Some []"
      "\<lambda>c. (Inr ''Image 1: a lamp.'' :: unit + string)"]
    POST_bad_request [of None
      "Some [\<lparr>ref_url = ''data:image/png;base64,AAAA'', ref_name = ''lamp.png''\<rparr>]"
      "\<lambda>c. (Inr ''Image 1: a lamp.'' :: unit + string)"]
  by simp

text \<open>
  The claim as the specification states it fails for the body \<open>null\<close>: it has no query
  and no images, the destructuring throws before the test of line 55 is reached, and the
  outer \<open>catch\<close> answers with status 500, not 400. The provider is not called there
  either.
\<close>

theorem POST_null_body_counterexample:
  "POST (\<lambda>c. (Inr ''Image 1: a lamp.'' :: unit + string))
       (NullBody ''Cannot destructure property query of null'')
     = (\<lparr>status = 500,
         body = ErrorBody
           ''Error analyzing images: Cannot destructure property query of null''\<rparr>, [])
   \<and> status (fst (POST (\<lambda>c. (Inr ''Image 1: a lamp.'' :: unit + string))
         (NullBody ''Cannot destructure property query of null''))) \<noteq> 400"
  by (simp add: POST_def)

text \<open>
  C7. For a request with a non-empty query and a non-empty list of images, when the call to
  the provider throws, the endpoint answers with status 200 and the body
  \<open>{ response: text }\<close>, the text being the fallback generator's for the query and the
  number of images: the same shape as an answer of the model.
\<close>

theorem POST_provider_failure:
  assumes "query \<noteq> []" and "images \<noteq> []"
    and "generateText (analysis_call query images) = Inl apiError"
  shows "POST generateText (Body (Some query) (Some images)) =
           (\<lparr>status = 200,
             body = ResponseBody (generateFallbackResponse query (length images))\<rparr>,
            [analysis_call query images])"
  using assms by (simp add: POST_def)

theorem POST_provider_failure_witness:
  "fst (POST (\<lambda>c. (Inl ''401 Unauthorized'' :: string + string))
     (Body (Some ''What colors?'')
        (Some [\<lparr>ref_url = ''data:image/png;base64,AAAA'', ref_name = ''lamp.png''\<rparr>,
               \<lparr>ref_url = ''data:image/jpeg;base64,AAAA'', ref_name = ''chair.jpg''\<rparr>])))
   = \<lparr>status = 200,
      body = ResponseBody
        (''Image 1: The dominant colors are warm earth tones.'' @ nl @ nl
         @ ''Image 2: The dominant colors are bright yellow and green.'' @ nl @ nl @ demo_note)\<rparr>"
proof -
  have g: "generateFallbackResponse ''What colors?'' (Suc (Suc 0)) =
       ''Image 1: The dominant colors are warm earth tones.'' @ nl @ nl
       @ ''Image 2: The dominant colors are bright yellow and green.'' @ nl @ nl @ demo_note"
    by code_simp
  show ?thesis
    using POST_provider_failure [of "''What colors?''"
        "[\<lparr>ref_url = ''data:image/png;base64,AAAA'', ref_name = ''lamp.png''\<rparr>,
          \<lparr>ref_url = ''data:image/jpeg;base64,AAAA'', ref_name = ''chair.jpg''\<rparr>]"
        "\<lambda>c. (Inl ''401 Unauthorized'' :: string + string)" "''401 Unauthorized''"] g
    by simp
qed

section \<open>Properties of the client\<close>

subsection \<open>Strings and the sample inputs\<close>

lemma trim_eq_Nil: "trim s = [] \<longleftrightarrow> list_all is_white_space s"
proof -
  have mid: "dropWhile is_white_space (rev (dropWhile is_white_space s)) = []
          \<longleftrightarrow> dropWhile is_white_space s = []"
  proof (cases "dropWhile is_white_space s")
    case Nil
    show ?thesis unfolding Nil by simp
  next
    case (Cons c cs)
    then have "\<not> is_white_space c"
      by (metis hd_dropWhile list.sel(1) list.distinct(1))
    with Cons show ?thesis
      by (auto simp: dropWhile_eq_Nil_conv)
  qed
  have "trim s = [] \<longleftrightarrow> dropWhile is_white_space (rev (dropWhile is_white_space s)) = []"
    by (simp add: trim_def)
  also have "\<dots> \<longleftrightarrow> dropWhile is_white_space s = []"
    by (rule mid)
  also have "\<dots> \<longleftrightarrow> list_all is_white_space s"
    by (simp add: dropWhile_eq_Nil_conv list_all_iff)
  finally show ?thesis .
qed

lemma sample_validateFile:
  "validateFile photo = None" "validateFile scan = None"
  "validateFile leaflet = Some (NotAnImage ''leaflet.pdf'')" "validateFile torn = None"
  by (simp_all add: validateFile_def photo_def scan_def leaflet_def torn_def supportedTypes_def)

lemma sample_reads:
  "readAsDataURL sample_world photo = Some ''data:image/png;base64,AAAA''"
  "readAsDataURL sample_world scan = Some ''data:image/jpeg;base64,AAAA''"
  "readAsDataURL sample_world torn = None"
  by (simp_all add: sample_world_def photo_def scan_def torn_def)

lemma sample_ids:
  "random_id sample_world 0 = ''id0''"
  "random_id sample_world (Suc 0) = ''id1''"
  "random_id sample_world (Suc (Suc 0)) = ''id2''"
  "random_id sample_world (Suc (Suc (Suc 0))) = ''id3''"
  "random_id sample_world (Suc (Suc (Suc (Suc 0)))) = ''id4''"
  by (simp_all add: sample_world_def toString.simps digit_def)

lemma asking_fields:
  "page_query (asking q) = q"
  "page_images (asking q) = [held ''id0'' photo]"
  "upload_images (asking q) = [held ''id0'' photo]"
  "messages (asking q) = []"
  "requests (asking q) = []"
  "draws (asking q) = Suc 0"
  by (simp_all add: asking_def initial_state_def)

lemma validateImages_asking: "validateImages (page_images (asking q)) = None"
  by (simp add: asking_fields validateImages_def held_def photo_def)

subsection \<open>The query orchestrator\<close>

text \<open>
  C2, as the code has it. A query that is blank after trimming fails with EmptyQuery; a
  query that is not blank and whose length, white space at its ends included, is under 3
  fails with TooShort; a query that is not blank and whose length is over 500 fails with
  TooLong; in each of these cases the transcript is unchanged, no request is sent and the
  in-flight flag is left as it was.
\<close>

theorem handleSendQuery_rejects_query:
  "(trim (page_query s) = [] \<longrightarrow> page_error (handleSendQuery w s) = Some EmptyQuery)
   \<and> (trim (page_query s) \<noteq> [] \<and> length (page_query s) < 3 \<longrightarrow>
        page_error (handleSendQuery w s) = Some TooShort)
   \<and> (trim (page_query s) \<noteq> [] \<and> length (page_query s) > 500 \<longrightarrow>
        page_error (handleSendQuery w s) = Some TooLong)
   \<and> (trim (page_query s) = [] \<or> length (page_query s) < 3 \<or> length (page_query s) > 500 \<longrightarrow>
        messages (handleSendQuery w s) = messages s
        \<and> requests (handleSendQuery w s) = requests s
        \<and> isProcessing (handleSendQuery w s) = isProcessing s)"
  by (simp add: handleSendQuery_def Let_def validateQuery_def)

theorem handleSendQuery_rejects_query_witness:
  "page_error (handleSendQuery sample_world (asking ''   '')) = Some EmptyQuery
   \<and> page_error (handleSendQuery sample_world (asking ''ab'')) = Some TooShort
   \<and> page_error (handleSendQuery sample_world (asking (replicate 501 (CHR ''a'')))) = Some TooLong
   \<and> messages (handleSendQuery sample_world (asking ''   '')) = []
   \<and> messages (handleSendQuery sample_world (asking ''ab'')) = []
   \<and> messages (handleSendQuery sample_world (asking (replicate 501 (CHR ''a'')))) = []
   \<and> requests (handleSendQuery sample_world (asking ''ab'')) = []"
proof -
  have t: "trim ''   '' = []" "trim ''ab'' \<noteq> []" "trim (replicate 501 (CHR ''a'')) \<noteq> []"
    by (simp_all add: trim_eq_Nil list_all_iff is_white_space_def)
  show ?thesis
    using handleSendQuery_rejects_query [of "asking ''   ''" sample_world]
      handleSendQuery_rejects_query [of "asking ''ab''" sample_world]
      handleSendQuery_rejects_query [of "asking (replicate 501 (CHR ''a''))" sample_world] t
    by (simp add: asking_fields)
qed

text \<open>
  The claim as the specification states it fails twice. The query \<open>'' a ''\<close> has one
  character after trimming, yet it passes validation: with an image held, the transcript
  grows and a request is sent. A query of 501 spaces is over 500 characters long and
  fails with EmptyQuery, not TooLong.
\<close>

theorem handleSendQuery_padded_query_counterexample:
  "length (trim '' a '') < 3
   \<and> validateQuery '' a '' = None
   \<and> length (messages (handleSendQuery sample_world (asking '' a ''))) = 2
   \<and> messages (asking '' a '') = []
   \<and> requests (handleSendQuery sample_world (asking '' a '')) = [request_of (asking '' a '')]
   \<and> requests (asking '' a '') = []
   \<and> length (replicate 501 (CHR '' '')) > 500
   \<and> page_error (handleSendQuery sample_world (asking (replicate 501 (CHR '' ''))))
       = Some EmptyQuery"
proof -
  have a: "length (trim '' a '') < 3"
    by code_simp
  have b: "validateQuery '' a '' = None"
    by code_simp
  have c: "validateQuery (replicate 501 (CHR '' '')) = Some EmptyQuery"
    by (simp add: validateQuery_def trim_eq_Nil list_all_iff is_white_space_def)
  have d: "length (messages (handleSendQuery sample_world (asking '' a ''))) = 2"
    "requests (handleSendQuery sample_world (asking '' a '')) = [request_of (asking '' a '')]"
    using b validateImages_asking [of "'' a ''"]
    by (simp_all add: handleSendQuery_def Let_def asking_fields request_of_def sample_world_def)
  have e: "page_error (handleSendQuery sample_world (asking (replicate 501 (CHR '' ''))))
       = Some EmptyQuery"
    using c by (simp add: handleSendQuery_def Let_def asking_fields)
  show ?thesis
    using a b d e by (simp add: asking_fields)
qed

text \<open>
  C10. When the query and the images pass validation and the endpoint answers with a
  success response, \<open>handleSendQuery\<close> appends the user's entry and then exactly one
  bot entry carrying the returned text, empties the query input, and leaves the images
  held, the page's and the upload component's, as they were.
\<close>

theorem handleSendQuery_success:
  assumes "validateQuery (page_query s) = None"
    and "validateImages (page_images s) = None"
    and "fetch w (Suc (draws s)) (request_of s) = Responded True errorData aiResponse"
  shows "messages (handleSendQuery w s) =
           messages s @
             [userMessage w s,
              \<lparr>msg_id = random_id w (Suc (draws s)), msg_type = Bot, msg_content = aiResponse,
               msg_images = None, msg_timestamp = clock w (Suc (Suc (draws s)))\<rparr>]
       \<and> length (filter (\<lambda>m. msg_type m = Bot) (messages (handleSendQuery w s)))
           = Suc (length (filter (\<lambda>m. msg_type m = Bot) (messages s)))
       \<and> page_query (handleSendQuery w s) = []
       \<and> page_images (handleSendQuery w s) = page_images s
       \<and> upload_images (handleSendQuery w s) = upload_images s"
  using assms by (simp add: handleSendQuery_def Let_def request_of_def userMessage_def)

theorem handleSendQuery_success_witness:
  "map msg_type (messages (handleSendQuery sample_world (asking ''What is this?''))) = [User, Bot]
   \<and> map msg_content (messages (handleSendQuery sample_world (asking ''What is this?'')))
       = [''What is this?'', ''Image 1: a lamp.'']
   \<and> page_query (handleSendQuery sample_world (asking ''What is this?'')) = []
   \<and> page_images (handleSendQuery sample_world (asking ''What is this?'')) = [held ''id0'' photo]"
proof -
  have "validateQuery ''What is this?'' = None"
    by code_simp
  then have h1: "validateQuery (page_query (asking ''What is this?'')) = None"
    by (simp add: asking_fields)
  have h3: "fetch sample_world (Suc (draws (asking ''What is this?'')))
              (request_of (asking ''What is this?'')) = Responded True None ''Image 1: a lamp.''"
    by (simp add: sample_world_def)
  show ?thesis
    using handleSendQuery_success [OF h1 validateImages_asking h3]
    by (simp add: userMessage_def asking_fields)
qed

subsection \<open>Image intake\<close>

lemma sample_files:
  "file_name photo = ''lamp.png''" "file_type photo = ''image/png''"
  "file_name scan = ''chair.jpg''" "file_type scan = ''image/jpeg''"
  by (simp_all add: photo_def scan_def)

lemma sample_fields:
  "file_name torn = ''broken.png''"
  "img_file (held ident f) = f"
  "img_id (held ident f) = ident"
  "upload_images stocked = [held ''a'' photo, held ''b'' scan, held ''c'' photo]"
  "upload_images initial_state = []"
  "page_images initial_state = []"
  "toasts initial_state = []"
  by (simp_all add: torn_def held_def stocked_def initial_state_def)

lemma validateFile_size:
  "validateFile f = None \<Longrightarrow> file_size f \<le> 10 * 1024 * 1024"
  by (simp add: validateFile_def Let_def split: if_splits)

text \<open>The loop of \<open>handleFiles\<close>: what it adds to \<open>newImages\<close> and to \<open>errors\<close>.\<close>

lemma process_files_spec:
  "\<exists>k' new. process_files w files k imgs errs = (k', imgs @ new, errs @ batch_failures w files)
      \<and> length new + length (batch_failures w files) = length files
      \<and> list_all (\<lambda>img. validateFile (img_file img) = None) new
      \<and> (batch_failures w files = [] \<longrightarrow> map img_file new = files)"
proof (induction files arbitrary: k imgs errs)
  case Nil
  show ?case by (simp add: batch_failures_def map_filter_simps)
next
  case (Cons f rest)
  show ?case
  proof (cases "validateFile f")
    case (Some e)
    from Cons.IH [of k imgs "errs @ [e]"] Some show ?thesis
      by (auto simp: batch_failures_def map_filter_simps)
  next
    case None
    note valid = this
    show ?thesis
    proof (cases "readAsDataURL w f")
      case None
      from Cons.IH [of "Suc k" imgs "errs @ [FailedToProcess (file_name f)]"] valid None
      show ?thesis
        by (auto simp: batch_failures_def map_filter_simps)
    next
      case (Some u)
      define img where
        "img = \<lparr>img_id = random_id w k, img_file = f, img_url = u, img_name = file_name f\<rparr>"
      obtain k' new where
        h: "process_files w rest (Suc k) (imgs @ [img]) errs
              = (k', (imgs @ [img]) @ new, errs @ batch_failures w rest)"
          "length new + length (batch_failures w rest) = length rest"
          "list_all (\<lambda>img. validateFile (img_file img) = None) new"
          "batch_failures w rest = [] \<longrightarrow> map img_file new = rest"
        using Cons.IH [of "Suc k" "imgs @ [img]" errs] by blast
      have bf: "batch_failures w (f # rest) = batch_failures w rest"
        using valid Some by (simp add: batch_failures_def map_filter_simps)
      have step: "process_files w (f # rest) k imgs errs
                    = process_files w rest (Suc k) (imgs @ [img]) errs"
        using valid Some by (simp add: img_def)
      have "img_file img = f"
        by (simp add: img_def)
      with h valid bf step show ?thesis
        by (intro exI [of _ k'] exI [of _ "img # new"]) simp
    qed
  qed
qed

lemma batch_failures_Nil:
  "list_all (\<lambda>f. validateFile f = None) files
     \<Longrightarrow> list_all (\<lambda>f. readAsDataURL w f \<noteq> None) files
     \<Longrightarrow> batch_failures w files = []"
  by (induction files) (auto simp: batch_failures_def map_filter_simps)

lemma batch_failures_invalid:
  "\<not> list_all (\<lambda>f. validateFile f = None) files \<Longrightarrow> batch_failures w files \<noteq> []"
  by (induction files) (auto simp: batch_failures_def map_filter_simps split: option.splits)

text \<open>
  C3, as the code has it. For a batch that fits the remaining capacity (4 less the images
  held) and in which at least one file fails validation, no image is added, the reason
  shown is the first failure of the batch, and one toast reports the number of failures.
\<close>

theorem handleFiles_invalid_batch:
  assumes "int (length files) \<le> 4 - int (length (upload_images s))"
    and "\<not> list_all (\<lambda>f. validateFile f = None) files"
  shows "upload_images (handleFiles 4 w files s) = upload_images s
       \<and> page_images (handleFiles 4 w files s) = page_images s
       \<and> batch_failures w files \<noteq> []
       \<and> uploadError (handleFiles 4 w files s) = Some (hd (batch_failures w files))
       \<and> toasts (handleFiles 4 w files s)
           = toasts s @ [UploadErrorToast (length (batch_failures w files))]"
proof -
  have ne: "batch_failures w files \<noteq> []"
    using assms(2) by (rule batch_failures_invalid)
  obtain k' new where
    p: "process_files w files (draws s) [] [] = (k', new, batch_failures w files)"
    using process_files_spec [of w files "draws s" "[]" "[]"] by auto
  obtain e es where e: "batch_failures w files = e # es"
    using ne by (cases "batch_failures w files") auto
  show ?thesis
    using assms(1) p e by (simp add: handleFiles_def Let_def)
qed

theorem handleFiles_invalid_batch_witness:
  "upload_images (handleFiles 4 sample_world [photo, leaflet, torn] initial_state) = []
   \<and> uploadError (handleFiles 4 sample_world [photo, leaflet, torn] initial_state)
       = Some (NotAnImage ''leaflet.pdf'')
   \<and> toasts (handleFiles 4 sample_world [photo, leaflet, torn] initial_state)
       = [UploadErrorToast 2]"
proof -
  have h1: "int (length [photo, leaflet, torn]) \<le> 4 - int (length (upload_images initial_state))"
    by (simp add: sample_fields)
  have h2: "\<not> list_all (\<lambda>f. validateFile f = None) [photo, leaflet, torn]"
    by (simp add: sample_validateFile)
  have bf: "batch_failures sample_world [photo, leaflet, torn]
              = [NotAnImage ''leaflet.pdf'', FailedToProcess ''broken.png'']"
    by (simp add: batch_failures_def map_filter_simps sample_validateFile sample_reads
        sample_fields)
  show ?thesis
    using handleFiles_invalid_batch [OF h1 h2, of sample_world] bf by (simp add: sample_fields)
qed

text \<open>
  The claim as the specification states it fails for a batch that is also over capacity:
  five files, the first a PDF, offered to an empty set. The reason shown is the capacity
  reason, not the PDF's, and no toast is emitted.
\<close>

theorem handleFiles_invalid_batch_counterexample:
  "\<not> list_all (\<lambda>f. validateFile f = None) [leaflet, photo, photo, photo, photo]
   \<and> validateFile leaflet = Some (NotAnImage ''leaflet.pdf'')
   \<and> uploadError (handleFiles 4 sample_world [leaflet, photo, photo, photo, photo] initial_state)
       = Some (CapacityExceeded 4)
   \<and> toasts (handleFiles 4 sample_world [leaflet, photo, photo, photo, photo] initial_state) = []"
  by (simp add: sample_validateFile handleFiles_def Let_def sample_fields)

text \<open>
  C4. A batch with more files than the remaining capacity (4 less the images held) adds
  nothing: the images held stay as they were, the reason shown is the capacity reason, and
  no toast is emitted, whatever the files are.
\<close>

theorem handleFiles_over_capacity:
  assumes "int (length files) > 4 - int (length (upload_images s))"
  shows "upload_images (handleFiles 4 w files s) = upload_images s
       \<and> page_images (handleFiles 4 w files s) = page_images s
       \<and> uploadError (handleFiles 4 w files s)
           = Some (CapacityExceeded (4 - int (length (upload_images s))))
       \<and> toasts (handleFiles 4 w files s) = toasts s"
  using assms by (simp add: handleFiles_def Let_def)

theorem handleFiles_over_capacity_witness:
  "upload_images (handleFiles 4 sample_world [photo, scan] stocked)
     = [held ''a'' photo, held ''b'' scan, held ''c'' photo]
   \<and> uploadError (handleFiles 4 sample_world [photo, scan] stocked) = Some (CapacityExceeded 1)"
proof -
  have h: "int (length [photo, scan]) > 4 - int (length (upload_images stocked))"
    by (simp add: sample_fields)
  show ?thesis
    using handleFiles_over_capacity [OF h, of sample_world] by (simp add: sample_fields)
qed

text \<open>
  C5. When every file of a batch passes validation, the batch fits the remaining capacity
  and every file is read successfully, all the files are accepted, in their order after
  the images already held, and the number of images held grows by the size of the batch.
\<close>

theorem handleFiles_accepts_batch:
  assumes "list_all (\<lambda>f. validateFile f = None) files"
    and "int (length files) \<le> 4 - int (length (upload_images s))"
    and "list_all (\<lambda>f. readAsDataURL w f \<noteq> None) files"
  shows "map img_file (upload_images (handleFiles 4 w files s))
           = map img_file (upload_images s) @ files
       \<and> take (length (upload_images s)) (upload_images (handleFiles 4 w files s))
           = upload_images s
       \<and> length (upload_images (handleFiles 4 w files s))
           = length (upload_images s) + length files
       \<and> uploadError (handleFiles 4 w files s) = None"
proof -
  have nofail: "batch_failures w files = []"
    using assms(1,3) by (rule batch_failures_Nil)
  obtain k' new where
    p: "process_files w files (draws s) [] [] = (k', new, [])" and m: "map img_file new = files"
    using process_files_spec [of w files "draws s" "[]" "[]"] nofail by auto
  have len: "length new = length files"
    using m by (metis length_map)
  show ?thesis
    using assms(2) p m len by (simp add: handleFiles_def Let_def)
qed

theorem handleFiles_accepts_batch_witness:
  "map img_file (upload_images (handleFiles 4 sample_world [photo, scan] (asking [])))
     = [photo, photo, scan]
   \<and> length (upload_images (handleFiles 4 sample_world [photo, scan] (asking []))) = 3"
proof -
  have h1: "list_all (\<lambda>f. validateFile f = None) [photo, scan]"
    by (simp add: sample_validateFile)
  have h2: "int (length [photo, scan]) \<le> 4 - int (length (upload_images (asking [])))"
    by (simp add: asking_fields)
  have h3: "list_all (\<lambda>f. readAsDataURL sample_world f \<noteq> None) [photo, scan]"
    by (simp add: sample_reads)
  show ?thesis
    using handleFiles_accepts_batch [OF h1 h2 h3] by (simp add: asking_fields sample_fields)
qed

subsection \<open>The bounds on the images held\<close>

lemma handleFiles_inv:
  assumes "intake_inv s"
  shows "intake_inv (handleFiles 4 w files s)"
proof (cases "int (length files) > 4 - int (length (upload_images s))")
  case True
  then show ?thesis
    using assms by (simp add: handleFiles_def Let_def intake_inv_def)
next
  case False
  obtain k' new where
    p: "process_files w files (draws s) [] [] = (k', new, batch_failures w files)"
    and len: "length new + length (batch_failures w files) = length files"
    and ok: "list_all (\<lambda>img. validateFile (img_file img) = None) new"
    using process_files_spec [of w files "draws s" "[]" "[]"] by auto
  have sz: "list_all (\<lambda>img. file_size (img_file img) \<le> 10 * 1024 * 1024) new"
    using ok validateFile_size by (auto simp: list_all_iff)
  show ?thesis
  proof (cases "batch_failures w files")
    case Nil
    then show ?thesis
      using assms False p len sz by (simp add: handleFiles_def Let_def intake_inv_def)
  next
    case (Cons e es)
    then show ?thesis
      using assms False p by (simp add: handleFiles_def Let_def intake_inv_def)
  qed
qed

lemma removeImage_inv: "intake_inv s \<Longrightarrow> intake_inv (removeImage ident s)"
  by (auto simp: removeImage_def intake_inv_def Let_def list_all_iff
      intro: le_trans [OF length_filter_le])

lemma clearAll_inv: "intake_inv (clearAll s)"
  by (simp add: clearAll_def intake_inv_def)

lemma intake_step_inv: "intake_inv s \<Longrightarrow> intake_inv (intake_step w s operation)"
  by (cases operation) (simp_all add: intake_step_def handleFiles_inv removeImage_inv clearAll_inv)

lemma run_intake_inv: "intake_inv s \<Longrightarrow> intake_inv (run_intake w ops s)"
  unfolding run_intake_def
  by (induction ops arbitrary: s) (simp_all add: intake_step_inv)

text \<open>
  C8. From a state that holds no image, after any sequence of intake operations (a batch
  offered, an image removed by its identifier, all images cleared) at most 4 images are
  held and the file of each is at most 10 MiB (10 * 1024 * 1024 bytes) in size; the page's
  copy of the list is the upload component's.
\<close>

theorem run_intake_bounds:
  assumes "upload_images s = []" and "page_images s = []"
  shows "length (upload_images (run_intake w ops s)) \<le> 4
       \<and> list_all (\<lambda>img. file_size (img_file img) \<le> 10 * 1024 * 1024)
           (upload_images (run_intake w ops s))
       \<and> page_images (run_intake w ops s) = upload_images (run_intake w ops s)"
proof -
  have "intake_inv s"
    using assms by (simp add: intake_inv_def)
  then have "intake_inv (run_intake w ops s)"
    by (rule run_intake_inv)
  then show ?thesis
    by (simp add: intake_inv_def)
qed

lemma sample_submit_pair:
  "upload_images s = [] \<Longrightarrow> draws s = 0 \<Longrightarrow>
     upload_images (handleFiles 4 sample_world [photo, scan] s)
       = [held ''id0'' photo, held ''id1'' scan]
     \<and> draws (handleFiles 4 sample_world [photo, scan] s) = 2"
  by (simp add: handleFiles_def Let_def sample_validateFile sample_reads sample_ids held_def
      sample_files)

lemma sample_submit_leaflet:
  "length (upload_images s) \<le> 3 \<Longrightarrow>
     upload_images (handleFiles 4 sample_world [leaflet] s) = upload_images s
     \<and> draws (handleFiles 4 sample_world [leaflet] s) = draws s"
  by (simp add: handleFiles_def Let_def sample_validateFile)

lemma sample_submit_three:
  "upload_images s = [x] \<Longrightarrow> draws s = 2 \<Longrightarrow>
     upload_images (handleFiles 4 sample_world [photo, photo, photo] s)
       = [x, held ''id2'' photo, held ''id3'' photo, held ''id4'' photo]"
  by (simp add: handleFiles_def Let_def sample_validateFile sample_reads sample_ids held_def
      sample_files eval_nat_numeral)

theorem run_intake_bounds_witness:
  "upload_images (run_intake sample_world
       [Submit [photo, scan], Submit [leaflet], Remove ''id0'', Submit [photo, photo, photo],
        Submit [photo]] initial_state)
     = [held ''id1'' scan, held ''id2'' photo, held ''id3'' photo, held ''id4'' photo]
   \<and> length (upload_images (run_intake sample_world
       [Submit [photo, scan], Submit [leaflet], Remove ''id0'', Submit [photo, photo, photo],
        Submit [photo]] initial_state)) \<le> 4
   \<and> list_all (\<lambda>img. file_size (img_file img) \<le> 10 * 1024 * 1024)
       (upload_images (run_intake sample_world
       [Submit [photo, scan], Submit [leaflet], Remove ''id0'', Submit [photo, photo, photo],
        Submit [photo]] initial_state))"
proof -
  define s1 where "s1 = handleFiles 4 sample_world [photo, scan] initial_state"
  define s2 where "s2 = handleFiles 4 sample_world [leaflet] s1"
  define s3 where "s3 = removeImage ''id0'' s2"
  define s4 where "s4 = handleFiles 4 sample_world [photo, photo, photo] s3"
  define s5 where "s5 = handleFiles 4 sample_world [photo] s4"
  have r: "run_intake sample_world
       [Submit [photo, scan], Submit [leaflet], Remove ''id0'', Submit [photo, photo, photo],
        Submit [photo]] initial_state = s5"
    by (simp add: run_intake_def intake_step_def s1_def s2_def s3_def s4_def s5_def)
  have e1: "upload_images s1 = [held ''id0'' photo, held ''id1'' scan]" "draws s1 = 2"
    unfolding s1_def using sample_submit_pair [of initial_state]
    by (simp_all add: initial_state_def)
  have e2: "upload_images s2 = [held ''id0'' photo, held ''id1'' scan]" "draws s2 = 2"
    unfolding s2_def using sample_submit_leaflet [of s1] e1 by simp_all
  have e3: "upload_images s3 = [held ''id1'' scan]" "draws s3 = 2"
    unfolding s3_def using e2 by (simp_all add: removeImage_def Let_def sample_fields)
  have e4: "upload_images s4
              = [held ''id1'' scan, held ''id2'' photo, held ''id3'' photo, held ''id4'' photo]"
    unfolding s4_def using sample_submit_three [OF e3] .
  have e5: "upload_images s5 = upload_images s4"
    unfolding s5_def by (simp add: handleFiles_def Let_def e4)
  have i: "upload_images initial_state = []" "page_images initial_state = []"
    by (simp_all add: initial_state_def)
  show ?thesis
    using run_intake_bounds [OF i, of sample_world
        "[Submit [photo, scan], Submit [leaflet], Remove ''id0'', Submit [photo, photo, photo],
          Submit [photo]]"] r e4 e5
    by simp
qed

subsection \<open>Removing an image\<close>

lemma filter_once:
  "length (filter P xs) = 1 \<Longrightarrow>
     \<exists>ys x zs. xs = ys @ x # zs \<and> P x \<and> filter (\<lambda>y. \<not> P y) xs = ys @ zs"
proof (induction xs)
  case Nil
  then show ?case by simp
next
  case (Cons a xs)
  show ?case
  proof (cases "P a")
    case True
    with Cons.prems have "filter P xs = []" by simp
    then have "filter (\<lambda>y. \<not> P y) xs = xs"
      by (simp add: filter_empty_conv)
    with True show ?thesis
      by (intro exI [of _ "[]"] exI [of _ a] exI [of _ xs]) simp
  next
    case False
    with Cons.prems have "length (filter P xs) = 1" by simp
    from Cons.IH [OF this] obtain ys x zs where
      "xs = ys @ x # zs" "P x" "filter (\<lambda>y. \<not> P y) xs = ys @ zs" by blast
    with False show ?thesis
      by (intro exI [of _ "a # ys"] exI [of _ x] exI [of _ zs]) simp
  qed
qed

text \<open>
  C9. When exactly one image held has the identifier, removing it leaves one image fewer:
  the list is the old one with that image taken out, the others in their order. When no
  image held has the identifier, the list is unchanged. Removing twice is removing once.
\<close>

theorem removeImage_once:
  "(length (filter (\<lambda>img. img_id img = ident) (upload_images s)) = 1 \<longrightarrow>
      Suc (length (upload_images (removeImage ident s))) = length (upload_images s)
      \<and> (\<exists>before x after.
            upload_images s = before @ x # after \<and> img_id x = ident
            \<and> upload_images (removeImage ident s) = before @ after))
   \<and> (ident \<notin> set (map img_id (upload_images s)) \<longrightarrow>
        upload_images (removeImage ident s) = upload_images s)
   \<and> upload_images (removeImage ident (removeImage ident s))
        = upload_images (removeImage ident s)"
proof (intro conjI impI)
  assume once: "length (filter (\<lambda>img. img_id img = ident) (upload_images s)) = 1"
  from filter_once [OF once] obtain ys x zs where
    d: "upload_images s = ys @ x # zs" "img_id x = ident"
       "filter (\<lambda>img. img_id img \<noteq> ident) (upload_images s) = ys @ zs"
    by blast
  then show "\<exists>before x after.
            upload_images s = before @ x # after \<and> img_id x = ident
            \<and> upload_images (removeImage ident s) = before @ after"
    by (auto simp: removeImage_def Let_def)
  from d show "Suc (length (upload_images (removeImage ident s))) = length (upload_images s)"
    by (simp add: removeImage_def Let_def)
next
  assume "ident \<notin> set (map img_id (upload_images s))"
  then have "filter (\<lambda>img. img_id img \<noteq> ident) (upload_images s) = upload_images s"
    by (auto simp: filter_id_conv)
  then show "upload_images (removeImage ident s) = upload_images s"
    by (simp add: removeImage_def Let_def)
next
  show "upload_images (removeImage ident (removeImage ident s))
        = upload_images (removeImage ident s)"
    by (simp add: removeImage_def Let_def)
qed

theorem removeImage_once_witness:
  "upload_images stocked = [held ''a'' photo, held ''b'' scan, held ''c'' photo]
   \<and> upload_images (removeImage ''b'' stocked) = [held ''a'' photo, held ''c'' photo]
   \<and> length (upload_images (removeImage ''b'' stocked)) = 2
   \<and> upload_images (removeImage ''zz'' stocked) = upload_images stocked"
proof -
  have r: "upload_images (removeImage ''b'' stocked) = [held ''a'' photo, held ''c'' photo]"
    by (simp add: removeImage_def Let_def sample_fields)
  have h1: "length (filter (\<lambda>img. img_id img = ''b'') (upload_images stocked)) = 1"
    by (simp add: sample_fields)
  have h2: "''zz'' \<notin> set (map img_id (upload_images stocked))"
    by (simp add: sample_fields)
  show ?thesis
    using removeImage_once [of "''b''" stocked] removeImage_once [of "''zz''" stocked] h1 h2 r
    by (simp add: sample_fields)
qed

end
